theory Spec2Isabelle
  imports Main
begin

section \<open>The TinyCPU interpreter of cozputer.py\<close>

text \<open>
  The class \<^verbatim>\<open>TinyCPU\<close> holds a robot, a memory of \<^verbatim>\<open>MEM_SIZE\<close> cells and a deque of
  pending bytes. Python integers are unbounded, so cells and queued values are \<open>int\<close>.
  The deque is a list whose head is its left end. Every method mutates the object in
  place; here it takes the object and returns it updated, together with either the
  value returned (\<open>Inr\<close>) or the exception raised (\<open>Inl\<close>). The object is returned in
  both cases, since whatever was popped or stored before an exception stays so.
\<close>

subsection \<open>Python built-ins used by the class\<close>

text \<open>
  The exceptions the methods can raise: \<^verbatim>\<open>IndexError\<close> (popping from an empty deque, or
  a bad list index), \<^verbatim>\<open>KeyError\<close> (with the key that the dictionary lacks) and
  \<^verbatim>\<open>ValueError\<close> (from \<^verbatim>\<open>str\<close>). \<^verbatim>\<open>IndexError\<close> and \<^verbatim>\<open>ValueError\<close> carry their message.
\<close>

datatype error = IndexError string | KeyError int | ValueError string

text \<open>
  Indexing a Python list, on a 64-bit CPython: an index that does not fit a signed
  64-bit integer raises; otherwise a negative index counts from the end, and an index
  outside \<open>[-len, len)\<close> raises with the message of the operation (\<open>msg\<close>).
\<close>

definition list_index :: "'a list \<Rightarrow> int \<Rightarrow> string \<Rightarrow> error + nat" where
  "list_index xs i msg =
     (if i < - (2 ^ 63) \<or> 2 ^ 63 \<le> i then
        Inl (IndexError ''cannot fit 'int' into an index-sized integer'')
      else
        (let n = int (length xs); j = (if i < 0 then i + n else i)
         in if 0 \<le> j \<and> j < n then Inr (nat j) else Inl (IndexError msg)))"

definition list_getitem :: "'a list \<Rightarrow> int \<Rightarrow> error + 'a" where
  "list_getitem xs i =
     (case list_index xs i ''list index out of range'' of
        Inl e \<Rightarrow> Inl e
      | Inr k \<Rightarrow> Inr (xs ! k))"

definition list_setitem :: "'a list \<Rightarrow> int \<Rightarrow> 'a \<Rightarrow> error + 'a list" where
  "list_setitem xs i v =
     (case list_index xs i ''list assignment index out of range'' of
        Inl e \<Rightarrow> Inl e
      | Inr k \<Rightarrow> Inr (xs[k := v]))"

text \<open>
  \<^verbatim>\<open>str\<close> of an integer: its decimal digits, after a minus sign when negative. CPython
  (3.11 and later, and the patched releases of 3.7 to 3.10) refuses it when there are
  more digits than \<^verbatim>\<open>sys.int_max_str_digits\<close>, 4300 unless configured otherwise, and raises
  \<^verbatim>\<open>ValueError\<close>; the sign is not counted.
\<close>

definition digit_char :: "nat \<Rightarrow> char" where
  "digit_char d = ''0123456789'' ! d"

function str_nat :: "nat \<Rightarrow> string" where
  "str_nat n = (if n < 10 then [digit_char n] else str_nat (n div 10) @ [digit_char (n mod 10)])"
  by pat_completeness auto
termination
  by (relation "measure (\<lambda>n. n)") auto

declare str_nat.simps [simp del]

definition int_max_str_digits :: nat where
  "int_max_str_digits = 4300"

definition str_limit_message :: string where
  "str_limit_message =
     ''Exceeds the limit (4300 digits) for integer string conversion; use sys.set_int_max_str_digits() to increase the limit''"

definition py_str :: "int \<Rightarrow> error + string" where
  "py_str i =
     (let digits = str_nat (nat \<bar>i\<bar>)
      in if int_max_str_digits < length digits then Inl (ValueError str_limit_message)
         else Inr (if i < 0 then CHR ''-'' # digits else digits))"

subsection \<open>The interpreter state\<close>

text \<open>
  The robot is outside the program. It is a value of an arbitrary type \<open>'w\<close>, and
  \<^verbatim>\<open>robot.say_text(text).wait_for_completed()\<close> is a function from the robot and the text
  to a reply of an arbitrary type \<open>'r\<close> and the robot afterwards; the call is taken to
  return. The field \<open>said\<close> is not a field of the class: it lists the texts passed to
  \<^verbatim>\<open>say_text\<close> so far, oldest first, so that the calls made are part of what a run
  produces.
\<close>

type_synonym ('w, 'r) say_text = "'w \<Rightarrow> string \<Rightarrow> 'r \<times> 'w"

record 'w TinyCPU =
  robot :: 'w
  memory :: "int list"
  prog :: "int list"
  said :: "string list"

definition MEM_SIZE :: nat where
  "MEM_SIZE = 256"

definition init :: "'w \<Rightarrow> 'w TinyCPU" where
  "init r = \<lparr>robot = r, memory = replicate MEM_SIZE 0, prog = [], said = []\<rparr>"

definition byte :: "int \<Rightarrow> 'w TinyCPU \<Rightarrow> 'w TinyCPU" where
  "byte b s = s\<lparr>prog := prog s @ [b]\<rparr>"

text \<open>\<^verbatim>\<open>self.prog.popleft()\<close>: raises on an empty deque, otherwise removes its first element.\<close>

definition popleft :: "'w TinyCPU \<Rightarrow> (error + int) \<times> 'w TinyCPU" where
  "popleft s =
     (case prog s of
        [] \<Rightarrow> (Inl (IndexError ''pop from an empty deque''), s)
      | b # bs \<Rightarrow> (Inr b, s\<lparr>prog := bs\<rparr>))"

subsection \<open>The instructions\<close>

definition ins_load :: "'w TinyCPU \<Rightarrow> (error + unit) \<times> 'w TinyCPU" where
  "ins_load s =
     (case popleft s of
        (Inl e, s1) \<Rightarrow> (Inl e, s1)
      | (Inr addr, s1) \<Rightarrow>
          (case popleft s1 of
             (Inl e, s2) \<Rightarrow> (Inl e, s2)
           | (Inr val, s2) \<Rightarrow>
               (case list_setitem (memory s2) addr val of
                  Inl e \<Rightarrow> (Inl e, s2)
                | Inr m \<Rightarrow> (Inr (), s2\<lparr>memory := m\<rparr>))))"

definition ins_add :: "'w TinyCPU \<Rightarrow> (error + unit) \<times> 'w TinyCPU" where
  "ins_add s =
     (case popleft s of
        (Inl e, s1) \<Rightarrow> (Inl e, s1)
      | (Inr x, s1) \<Rightarrow>
          (case popleft s1 of
             (Inl e, s2) \<Rightarrow> (Inl e, s2)
           | (Inr y, s2) \<Rightarrow>
               (case list_getitem (memory s2) x of
                  Inl e \<Rightarrow> (Inl e, s2)
                | Inr vx \<Rightarrow>
                    (case list_getitem (memory s2) y of
                       Inl e \<Rightarrow> (Inl e, s2)
                     | Inr vy \<Rightarrow>
                         (case list_setitem (memory s2) x (vx + vy) of
                            Inl e \<Rightarrow> (Inl e, s2)
                          | Inr m \<Rightarrow> (Inr (), s2\<lparr>memory := m\<rparr>))))))"

definition ins_say :: "('w, 'r) say_text \<Rightarrow> 'w TinyCPU \<Rightarrow> (error + unit) \<times> 'w TinyCPU" where
  "ins_say say_text s =
     (case popleft s of
        (Inl e, s1) \<Rightarrow> (Inl e, s1)
      | (Inr addr, s1) \<Rightarrow>
          (case list_getitem (memory s1) addr of
             Inl e \<Rightarrow> (Inl e, s1)
           | Inr v \<Rightarrow>
               (case py_str v of
                  Inl e \<Rightarrow> (Inl e, s1)
                | Inr text \<Rightarrow>
                    (Inr (), s1\<lparr>robot := snd (say_text (robot s1) text),
                                 said := said s1 @ [text]\<rparr>))))"

definition ins_ret :: "'w TinyCPU \<Rightarrow> (error + unit) \<times> 'w TinyCPU" where
  "ins_ret s = (Inr (), s)"

text \<open>The dispatch table, a dictionary from opcode to handler.\<close>

definition INSTRUCTIONS ::
  "('w, 'r) say_text \<Rightarrow> int \<rightharpoonup> ('w TinyCPU \<Rightarrow> (error + unit) \<times> 'w TinyCPU)" where
  "INSTRUCTIONS say_text =
     [0x10 \<mapsto> ins_load, 0x11 \<mapsto> ins_add, 0x12 \<mapsto> ins_say say_text, 0x13 \<mapsto> ins_ret]"

subsection \<open>The run loop\<close>

text \<open>
  One iteration of the loop of \<^verbatim>\<open>run\<close>: pop the opcode, look its handler up (a missing
  key raises \<^verbatim>\<open>KeyError\<close>), call it.
\<close>

definition run_body :: "('w, 'r) say_text \<Rightarrow> 'w TinyCPU \<Rightarrow> (error + unit) \<times> 'w TinyCPU" where
  "run_body say_text s =
     (case popleft s of
        (Inl e, s1) \<Rightarrow> (Inl e, s1)
      | (Inr ins, s1) \<Rightarrow>
          (case INSTRUCTIONS say_text ins of
             None \<Rightarrow> (Inl (KeyError ins), s1)
           | Some handler \<Rightarrow> handler s1))"

lemma popleft_length: "length (prog (snd (popleft s))) \<le> length (prog s)"
  by (simp add: popleft_def split: list.split)

lemma popleft_shorter: "prog s \<noteq> [] \<Longrightarrow> length (prog (snd (popleft s))) < length (prog s)"
  by (simp add: popleft_def split: list.split)

lemma ins_load_length: "length (prog (snd (ins_load s))) \<le> length (prog s)"
  by (simp add: ins_load_def popleft_def split: list.split sum.split)

lemma ins_add_length: "length (prog (snd (ins_add s))) \<le> length (prog s)"
  by (simp add: ins_add_def popleft_def split: list.split sum.split)

lemma ins_say_length: "length (prog (snd (ins_say f s))) \<le> length (prog s)"
  by (simp add: ins_say_def popleft_def split: list.split sum.split)

lemma ins_ret_length: "length (prog (snd (ins_ret s))) \<le> length (prog s)"
  by (simp add: ins_ret_def)

lemma handler_length:
  "INSTRUCTIONS f ins = Some h \<Longrightarrow> length (prog (snd (h s))) \<le> length (prog s)"
  by (auto simp: INSTRUCTIONS_def ins_load_length ins_add_length ins_say_length
      ins_ret_length split: if_splits)

lemma run_body_shorter:
  "prog s \<noteq> [] \<Longrightarrow> length (prog (snd (run_body f s))) < length (prog s)"
proof -
  assume ne: "prog s \<noteq> []"
  then obtain b bs where p: "prog s = b # bs" by (cases "prog s") auto
  show ?thesis
  proof (cases "INSTRUCTIONS f b")
    case None
    with p show ?thesis by (simp add: run_body_def popleft_def)
  next
    case (Some h)
    have "length (prog (snd (h (s\<lparr>prog := bs\<rparr>)))) \<le> length (prog (s\<lparr>prog := bs\<rparr>))"
      by (rule handler_length [OF Some])
    with p Some show ?thesis by (simp add: run_body_def popleft_def)
  qed
qed

text \<open>
  \<^verbatim>\<open>run\<close>: while the deque is not empty, run one iteration; an exception leaves the loop.
  Each iteration shortens the deque, so the loop ends.
\<close>

function run :: "('w, 'r) say_text \<Rightarrow> 'w TinyCPU \<Rightarrow> (error + unit) \<times> 'w TinyCPU" where
  "run say_text s =
     (if length (prog s) > 0 then
        (case run_body say_text s of
           (Inl e, s1) \<Rightarrow> (Inl e, s1)
         | (Inr u, s1) \<Rightarrow> run say_text s1)
      else (Inr (), s))"
  by pat_completeness auto
termination
proof (relation "measure (\<lambda>(f, s). length (prog s))")
  show "wf (measure (\<lambda>(f :: ('w, 'r) say_text, s :: 'w TinyCPU). length (prog s)))"
    by simp
next
  fix say_text :: "('w, 'r) say_text" and s :: "'w TinyCPU" and x s1 u
  assume "0 < length (prog s)" and "(x, s1) = run_body say_text s"
  then have "length (prog s1) < length (prog s)"
    using run_body_shorter [of s say_text] by (metis length_greater_0_conv snd_conv)
  then show "((say_text, s1), (say_text, s)) \<in> measure (\<lambda>(f, s). length (prog s))"
    by simp
qed

declare run.simps [simp del]

subsection \<open>Well-formed programs\<close>

text \<open>
  The interpreter has no notion of a well-formed program; the properties below need one.
  A program is cut into its instructions, each a list of bytes: LOAD (\<open>0x10\<close>) with an
  address and a value, ADD (\<open>0x11\<close>) with two addresses, SAY (\<open>0x12\<close>) with an address
  or RET (\<open>0x13\<close>) alone, every operand a byte in \<open>[0, 255]\<close>. The queue holds their
  concatenation.
\<close>

definition in_range :: "int \<Rightarrow> bool" where
  "in_range b = (0 \<le> b \<and> b \<le> 255)"

fun complete_instruction :: "int list \<Rightarrow> bool" where
  "complete_instruction [opc, a, b] = ((opc = 0x10 \<or> opc = 0x11) \<and> in_range a \<and> in_range b)"
| "complete_instruction [opc, a] = (opc = 0x12 \<and> in_range a)"
| "complete_instruction [opc] = (opc = 0x13)"
| "complete_instruction _ = False"

text \<open>
  Inserting RET bytes at instruction boundaries: \<open>insert_rets ns cs\<close> puts \<open>ns ! i\<close> RET
  instructions in front of the \<open>i\<close>-th instruction of \<open>cs\<close>, and the next count of \<open>ns\<close>
  after the last instruction; a boundary without a count gets none.
\<close>

fun insert_rets :: "nat list \<Rightarrow> int list list \<Rightarrow> int list list" where
  "insert_rets [] cs = cs"
| "insert_rets (n # ns) [] = replicate n [0x13]"
| "insert_rets (n # ns) (c # cs) = replicate n [0x13] @ c # insert_rets ns cs"

text \<open>A program of LOAD instructions only, from its (address, value) pairs, then a RET.\<close>

definition load_program :: "(int \<times> int) list \<Rightarrow> int list" where
  "load_program loads = concat (map (\<lambda>(addr, val). [0x10, addr, val]) loads) @ [0x13]"

section \<open>Properties\<close>

subsection \<open>Auxiliary facts\<close>

lemma replicate_256: "replicate 256 x = x # x # replicate 254 x"
proof -
  have "(256::nat) = Suc (Suc 254)" by simp
  then show ?thesis by (simp only: replicate_Suc)
qed

lemma list_index_in_range:
  "0 \<le> i \<Longrightarrow> i \<le> 255 \<Longrightarrow> length xs = MEM_SIZE \<Longrightarrow> list_index xs i msg = Inr (nat i)"
  by (simp add: list_index_def Let_def MEM_SIZE_def)

lemma ins_load_in_range:
  assumes "prog s = addr # val # rest" and "0 \<le> addr" and "addr \<le> 255"
    and "length (memory s) = MEM_SIZE"
  shows "ins_load s = (Inr (), s\<lparr>prog := rest, memory := (memory s)[nat addr := val]\<rparr>)"
  using assms by (simp add: ins_load_def popleft_def list_setitem_def list_index_in_range)

lemma ins_add_in_range:
  assumes "prog s = x # y # rest" and "0 \<le> x" and "x \<le> 255" and "0 \<le> y" and "y \<le> 255"
    and "length (memory s) = MEM_SIZE"
  shows "ins_add s =
    (Inr (), s\<lparr>prog := rest, memory := (memory s)[nat x := memory s ! nat x + memory s ! nat y]\<rparr>)"
  using assms
  by (simp add: ins_add_def popleft_def list_getitem_def list_setitem_def list_index_in_range)

lemma ins_say_in_range:
  assumes "prog s = addr # rest" and "0 \<le> addr" and "addr \<le> 255"
    and "length (memory s) = MEM_SIZE"
  shows "ins_say f s =
    (case py_str (memory s ! nat addr) of
       Inl e \<Rightarrow> (Inl e, s\<lparr>prog := rest\<rparr>)
     | Inr text \<Rightarrow>
         (Inr (), s\<lparr>prog := rest, robot := snd (f (robot s) text), said := said s @ [text]\<rparr>))"
  using assms
  by (simp add: ins_say_def popleft_def list_getitem_def list_index_in_range split: sum.split)

lemma py_str_cases:
  "py_str v = Inl (ValueError str_limit_message) \<or> (\<exists>text. py_str v = Inr text)"
  by (simp add: py_str_def Let_def)

lemma py_str_42: "py_str 42 = Inr ''42''"
  by (simp add: py_str_def Let_def int_max_str_digits_def digit_char_def str_nat.simps)

lemma run_empty: "prog s = [] \<Longrightarrow> run f s = (Inr (), s)"
  by (simp add: run.simps)

lemma run_raise: "prog s \<noteq> [] \<Longrightarrow> run_body f s = (Inl e, t) \<Longrightarrow> run f s = (Inl e, t)"
  by (simp add: run.simps)

lemma run_next: "prog s \<noteq> [] \<Longrightarrow> run_body f s = (Inr u, t) \<Longrightarrow> run f s = run f t"
  by (simp add: run.simps)


lemma run_body_agree:
  assumes "memory s1 = memory s2" and "prog s1 = prog s2" and "said s1 = said s2"
  shows "fst (run_body f s1) = fst (run_body g s2) \<and>
         memory (snd (run_body f s1)) = memory (snd (run_body g s2)) \<and>
         prog (snd (run_body f s1)) = prog (snd (run_body g s2)) \<and>
         said (snd (run_body f s1)) = said (snd (run_body g s2))"
  using assms
  by (simp add: run_body_def popleft_def INSTRUCTIONS_def ins_load_def ins_add_def
      ins_say_def ins_ret_def split: list.split sum.split)

lemma run_agree:
  assumes "memory s1 = memory s2" and "prog s1 = prog s2" and "said s1 = said s2"
  shows "fst (run f s1) = fst (run g s2) \<and>
         memory (snd (run f s1)) = memory (snd (run g s2)) \<and>
         prog (snd (run f s1)) = prog (snd (run g s2)) \<and>
         said (snd (run f s1)) = said (snd (run g s2))"
  using assms
proof (induction "length (prog s1)" arbitrary: s1 s2 rule: less_induct)
  case less
  show ?case
  proof (cases "prog s1 = []")
    case True
    with less.prems show ?thesis by (simp add: run.simps)
  next
    case False
    note body = run_body_agree [OF less.prems, of f g]
    obtain x1 t1 where b1: "run_body f s1 = (x1, t1)" by (cases "run_body f s1")
    obtain x2 t2 where b2: "run_body g s2 = (x2, t2)" by (cases "run_body g s2")
    from body b1 b2 have eq: "x1 = x2" "memory t1 = memory t2" "prog t1 = prog t2"
      "said t1 = said t2" by simp_all
    show ?thesis
    proof (cases x1)
      case (Inl e)
      from False less.prems have ne2: "prog s2 \<noteq> []" by simp
      from b1 Inl have "run f s1 = (Inl e, t1)" by (intro run_raise [OF False]) simp
      moreover from b2 eq Inl have "run g s2 = (Inl e, t2)" by (intro run_raise [OF ne2]) simp
      ultimately show ?thesis using eq by simp
    next
      case (Inr u)
      from False less.prems have ne2: "prog s2 \<noteq> []" by simp
      have shorter: "length (prog t1) < length (prog s1)"
        using run_body_shorter [OF False, of f] b1 by simp
      from b1 Inr have "run f s1 = run f t1" by (intro run_next [OF False]) simp
      moreover from b2 eq Inr have "run g s2 = run g t2" by (intro run_next [OF ne2]) simp
      ultimately show ?thesis using less.hyps [OF shorter eq(2,3,4)] by simp
    qed
  qed
qed

lemma run_body_chunk:
  assumes "complete_instruction c" and "length (memory s) = MEM_SIZE"
  shows "run_body f (s\<lparr>prog := c @ rest\<rparr>)
           = (fst (run_body f (s\<lparr>prog := c\<rparr>)), (snd (run_body f (s\<lparr>prog := c\<rparr>)))\<lparr>prog := rest\<rparr>)"
    and "length (memory (snd (run_body f (s\<lparr>prog := c\<rparr>)))) = MEM_SIZE"
    and "fst (run_body f (s\<lparr>prog := c\<rparr>)) = Inr () \<or>
         fst (run_body f (s\<lparr>prog := c\<rparr>)) = Inl (ValueError str_limit_message)"
proof -
  consider (three) opc a b where "c = [opc, a, b]" | (two) opc a where "c = [opc, a]"
    | (one) opc where "c = [opc]" | (none) "\<not> complete_instruction c"
    by (cases c rule: complete_instruction.cases) auto
  then have "run_body f (s\<lparr>prog := c @ rest\<rparr>)
           = (fst (run_body f (s\<lparr>prog := c\<rparr>)), (snd (run_body f (s\<lparr>prog := c\<rparr>)))\<lparr>prog := rest\<rparr>)
      \<and> length (memory (snd (run_body f (s\<lparr>prog := c\<rparr>)))) = MEM_SIZE
      \<and> (fst (run_body f (s\<lparr>prog := c\<rparr>)) = Inr () \<or>
         fst (run_body f (s\<lparr>prog := c\<rparr>)) = Inl (ValueError str_limit_message))"
  proof cases
    case three
    with assms show ?thesis
      by (auto simp: run_body_def popleft_def INSTRUCTIONS_def ins_load_in_range
          ins_add_in_range in_range_def)
  next
    case two
    with assms py_str_cases [of "memory s ! nat a"] show ?thesis
      by (auto simp: run_body_def popleft_def INSTRUCTIONS_def ins_say_in_range in_range_def)
  next
    case one
    with assms show ?thesis
      by (auto simp: run_body_def popleft_def INSTRUCTIONS_def ins_ret_def)
  next
    case none
    with assms show ?thesis by simp
  qed
  then show "run_body f (s\<lparr>prog := c @ rest\<rparr>)
           = (fst (run_body f (s\<lparr>prog := c\<rparr>)), (snd (run_body f (s\<lparr>prog := c\<rparr>)))\<lparr>prog := rest\<rparr>)"
    and "length (memory (snd (run_body f (s\<lparr>prog := c\<rparr>)))) = MEM_SIZE"
    and "fst (run_body f (s\<lparr>prog := c\<rparr>)) = Inr () \<or>
         fst (run_body f (s\<lparr>prog := c\<rparr>)) = Inl (ValueError str_limit_message)"
    by simp_all
qed

lemma run_chunk_next:
  assumes "complete_instruction c" and "length (memory s) = MEM_SIZE"
    and "fst (run_body f (s\<lparr>prog := c\<rparr>)) = Inr ()"
  shows "run f (s\<lparr>prog := c @ rest\<rparr>) = run f ((snd (run_body f (s\<lparr>prog := c\<rparr>)))\<lparr>prog := rest\<rparr>)"
proof -
  from assms(1) have "c \<noteq> []" by auto
  then have "prog (s\<lparr>prog := c @ rest\<rparr>) \<noteq> []" by simp
  then show ?thesis
    using run_body_chunk(1) [OF assms(1,2), of f rest] assms(3) by (intro run_next) simp_all
qed

lemma run_chunk_raise:
  assumes "complete_instruction c" and "length (memory s) = MEM_SIZE"
    and "fst (run_body f (s\<lparr>prog := c\<rparr>)) = Inl e"
  shows "run f (s\<lparr>prog := c @ rest\<rparr>) = (Inl e, (snd (run_body f (s\<lparr>prog := c\<rparr>)))\<lparr>prog := rest\<rparr>)"
proof -
  from assms(1) have "c \<noteq> []" by auto
  then have "prog (s\<lparr>prog := c @ rest\<rparr>) \<noteq> []" by simp
  then show ?thesis
    using run_body_chunk(1) [OF assms(1,2), of f rest] assms(3) by (intro run_raise) simp_all
qed


lemma run_rets:
  "run f (s\<lparr>prog := concat (replicate n [0x13]) @ rest\<rparr>) = run f (s\<lparr>prog := rest\<rparr>)"
proof (induction n)
  case 0
  show ?case by simp
next
  case (Suc n)
  have "run_body f (s\<lparr>prog := 0x13 # concat (replicate n [0x13]) @ rest\<rparr>)
        = (Inr (), s\<lparr>prog := concat (replicate n [0x13]) @ rest\<rparr>)"
    by (simp add: run_body_def popleft_def INSTRUCTIONS_def ins_ret_def)
  then have "run f (s\<lparr>prog := 0x13 # concat (replicate n [0x13]) @ rest\<rparr>)
        = run f (s\<lparr>prog := concat (replicate n [0x13]) @ rest\<rparr>)"
    by (intro run_next) simp_all
  with Suc show ?case by simp
qed

lemma run_insert_rets:
  assumes "list_all complete_instruction chunks" and "length (memory s) = MEM_SIZE"
  shows "fst (run f (s\<lparr>prog := concat (insert_rets ns chunks)\<rparr>))
           = fst (run f (s\<lparr>prog := concat chunks\<rparr>)) \<and>
         memory (snd (run f (s\<lparr>prog := concat (insert_rets ns chunks)\<rparr>)))
           = memory (snd (run f (s\<lparr>prog := concat chunks\<rparr>))) \<and>
         said (snd (run f (s\<lparr>prog := concat (insert_rets ns chunks)\<rparr>)))
           = said (snd (run f (s\<lparr>prog := concat chunks\<rparr>)))"
  using assms
proof (induction ns chunks arbitrary: s rule: insert_rets.induct)
  case (1 cs)
  show ?case by simp
next
  case (2 n ns)
  show ?case using run_rets [where f = f and s = s and n = n and rest = "[]"] by simp
next
  case (3 n ns c cs)
  let ?t = "snd (run_body f (s\<lparr>prog := c\<rparr>))"
  from "3.prems" have c: "complete_instruction c" and cs: "list_all complete_instruction cs"
    by simp_all
  have len: "length (memory ?t) = MEM_SIZE"
    by (rule run_body_chunk(2) [OF c "3.prems"(2)])
  have strip: "run f (s\<lparr>prog := concat (insert_rets (n # ns) (c # cs))\<rparr>)
        = run f (s\<lparr>prog := c @ concat (insert_rets ns cs)\<rparr>)"
    using run_rets [where f = f and s = s and n = n and rest = "c @ concat (insert_rets ns cs)"] by simp
  show ?case
  proof (cases "fst (run_body f (s\<lparr>prog := c\<rparr>))")
    case (Inl e)
    have "run f (s\<lparr>prog := c @ concat (insert_rets ns cs)\<rparr>)
            = (Inl e, ?t\<lparr>prog := concat (insert_rets ns cs)\<rparr>)"
      by (rule run_chunk_raise [OF c "3.prems"(2) Inl])
    moreover have "run f (s\<lparr>prog := concat (c # cs)\<rparr>) = (Inl e, ?t\<lparr>prog := concat cs\<rparr>)"
      using run_chunk_raise [OF c "3.prems"(2) Inl, of "concat cs"] by simp
    ultimately show ?thesis using strip by simp
  next
    case (Inr u)
    then have ok: "fst (run_body f (s\<lparr>prog := c\<rparr>)) = Inr ()" by simp
    have "run f (s\<lparr>prog := c @ concat (insert_rets ns cs)\<rparr>)
            = run f (?t\<lparr>prog := concat (insert_rets ns cs)\<rparr>)"
      by (rule run_chunk_next [OF c "3.prems"(2) ok])
    moreover have "run f (s\<lparr>prog := concat (c # cs)\<rparr>) = run f (?t\<lparr>prog := concat cs\<rparr>)"
      using run_chunk_next [OF c "3.prems"(2) ok, of "concat cs"] by simp
    ultimately show ?thesis using strip "3.IH" [OF cs len] by simp
  qed
qed

lemma memory_prog_swap: "s\<lparr>memory := m, prog := p\<rparr> = s\<lparr>prog := p, memory := m\<rparr>"
  by simp

lemma length_foldl_store:
  "length (foldl (\<lambda>m (a, v). m[nat a := v]) m loads) = length m"
  by (induction loads arbitrary: m) (auto split: prod.splits)

lemma foldl_store_nth:
  assumes "0 \<le> i" and "nat i < length m"
    and "list_all (\<lambda>(a, v). in_range a \<and> in_range v) loads"
  shows "foldl (\<lambda>m (a, v). m[nat a := v]) m loads ! nat i
           = (case map_of (rev loads) i of None \<Rightarrow> m ! nat i | Some v \<Rightarrow> v)"
  using assms(3)
proof (induction loads rule: rev_induct)
  case Nil
  show ?case by simp
next
  case (snoc p ps)
  obtain a v where p: "p = (a, v)" by (cases p)
  from snoc.prems p have a: "0 \<le> a" and ps: "list_all (\<lambda>(a, v). in_range a \<and> in_range v) ps"
    by (simp_all add: in_range_def)
  show ?case
  proof (cases "a = i")
    case True
    with p assms(2) show ?thesis by (simp add: length_foldl_store)
  next
    case False
    with a assms(1) have "nat a \<noteq> nat i" by simp
    with p False snoc.IH [OF ps] show ?thesis by simp
  qed
qed

lemma run_loads:
  assumes "list_all (\<lambda>(a, v). in_range a \<and> in_range v) loads"
    and "length (memory s) = MEM_SIZE"
  shows "run f (s\<lparr>prog := concat (map (\<lambda>(addr, val). [0x10, addr, val]) loads) @ rest\<rparr>)
           = run f (s\<lparr>prog := rest, memory := foldl (\<lambda>m (a, v). m[nat a := v]) (memory s) loads\<rparr>)"
  using assms
proof (induction loads arbitrary: s)
  case Nil
  show ?case by simp
next
  case (Cons p ps)
  obtain a v where p: "p = (a, v)" by (cases p)
  let ?rest = "concat (map (\<lambda>(addr, val). [0x10, addr, val]) ps) @ rest"
  let ?t = "s\<lparr>prog := ?rest, memory := (memory s)[nat a := v]\<rparr>"
  from Cons.prems p have a: "0 \<le> a" "a \<le> 255"
    and ps: "list_all (\<lambda>(a, v). in_range a \<and> in_range v) ps"
    by (simp_all add: in_range_def)
  have "ins_load (s\<lparr>prog := a # v # ?rest\<rparr>) = (Inr (), ?t)"
    using a Cons.prems(2) by (simp add: ins_load_in_range)
  then have "run_body f (s\<lparr>prog := 0x10 # a # v # ?rest\<rparr>) = (Inr (), ?t)"
    by (simp add: run_body_def popleft_def INSTRUCTIONS_def)
  then have "run f (s\<lparr>prog := 0x10 # a # v # ?rest\<rparr>) = run f ?t"
    by (intro run_next) simp_all
  moreover have "length (memory (s\<lparr>memory := (memory s)[nat a := v]\<rparr>)) = MEM_SIZE"
    using Cons.prems(2) by simp
  note Cons.IH [OF ps this]
  ultimately show ?case using p by (simp add: memory_prog_swap)
qed









subsection \<open>The worked example\<close>

text \<open>
  C1. A fresh interpreter is given the twelve bytes of the worked example, one \<open>byte\<close>
  call each, and run. The run returns normally with the queue empty; cell 0 holds 42,
  cell 1 holds 19, the other 254 cells hold 0; and \<^verbatim>\<open>say_text\<close> was called exactly
  once, with the text of 42. This holds whatever the robot is and replies.
\<close>

theorem run_worked_example:
  "run f (foldl (\<lambda>s b. byte b s) (init w)
       [0x10, 0x00, 0x17, 0x10, 0x01, 0x13, 0x11, 0x00, 0x01, 0x12, 0x00, 0x13])
   = (Inr (), \<lparr>robot = snd (f w ''42''), memory = 42 # 19 # replicate 254 0,
               prog = [], said = [''42'']\<rparr>)
   \<and> py_str 42 = Inr ''42''"
  by (simp add: run.simps byte_def init_def MEM_SIZE_def run_body_def popleft_def
      INSTRUCTIONS_def ins_load_def ins_add_def ins_say_def ins_ret_def list_setitem_def
      list_getitem_def list_index_def Let_def py_str_42 replicate_256)

subsection \<open>ADD\<close>

text \<open>
  C2. ADD with both operand addresses in \<open>[0, 255]\<close>, on a memory of \<open>MEM_SIZE\<close> cells,
  returns normally and stores in cell \<open>x\<close> the integer sum of the cells \<open>x\<close> and \<open>y\<close> as
  they were before. Nothing is reduced modulo 256: when that sum is above 255, so is
  the cell.
\<close>

theorem ins_add_exact_sum:
  assumes "length (memory s) = MEM_SIZE" and "prog s = x # y # rest"
    and "0 \<le> x" and "x \<le> 255" and "0 \<le> y" and "y \<le> 255"
  shows "fst (ins_add s) = Inr () \<and>
         memory (snd (ins_add s)) ! nat x = memory s ! nat x + memory s ! nat y \<and>
         (255 < memory s ! nat x + memory s ! nat y \<longrightarrow> 255 < memory (snd (ins_add s)) ! nat x)"
proof -
  from assms have "ins_add s =
    (Inr (), s\<lparr>prog := rest, memory := (memory s)[nat x := memory s ! nat x + memory s ! nat y]\<rparr>)"
    by (intro ins_add_in_range) (simp_all add: MEM_SIZE_def)
  moreover from assms have "nat x < length (memory s)" by (simp add: MEM_SIZE_def)
  ultimately show ?thesis by simp
qed

theorem ins_add_exact_sum_witness:
  "memory (snd (ins_add ((init ())\<lparr>memory := (replicate MEM_SIZE 0)[0 := 200, 1 := 100],
                                   prog := [0, 1]\<rparr>))) ! 0 = 300
   \<and> (255::int) < 300"
  using ins_add_exact_sum
    [of "(init ())\<lparr>memory := (replicate MEM_SIZE 0)[0 := 200, 1 := 100], prog := [0, 1]\<rparr>" 0 1 "[]"]
  by (simp add: MEM_SIZE_def)

text \<open>
  C3. ADD with distinct operand addresses \<open>x\<close> and \<open>y\<close> in \<open>[0, 255]\<close>, on a memory of
  \<open>MEM_SIZE\<close> cells, returns normally, keeps the number of cells, and leaves cell \<open>y\<close>
  and every other cell but \<open>x\<close> as it was.
\<close>

theorem ins_add_frame:
  assumes "length (memory s) = MEM_SIZE" and "prog s = x # y # rest"
    and "0 \<le> x" and "x \<le> 255" and "0 \<le> y" and "y \<le> 255" and "x \<noteq> y"
  shows "fst (ins_add s) = Inr () \<and>
         length (memory (snd (ins_add s))) = length (memory s) \<and>
         memory (snd (ins_add s)) ! nat y = memory s ! nat y \<and>
         (\<forall>i. i \<noteq> nat x \<longrightarrow> memory (snd (ins_add s)) ! i = memory s ! i)"
proof -
  from assms have "ins_add s =
    (Inr (), s\<lparr>prog := rest, memory := (memory s)[nat x := memory s ! nat x + memory s ! nat y]\<rparr>)"
    by (intro ins_add_in_range) (simp_all add: MEM_SIZE_def)
  moreover from assms have "nat x \<noteq> nat y" by simp
  ultimately show ?thesis by simp
qed

theorem ins_add_frame_witness:
  "memory (snd (ins_add ((init ())\<lparr>memory := (replicate MEM_SIZE 0)[0 := 200, 1 := 100],
                                   prog := [0, 1]\<rparr>))) ! 1 = 100
   \<and> memory (snd (ins_add ((init ())\<lparr>memory := (replicate MEM_SIZE 0)[0 := 200, 1 := 100],
                                     prog := [0, 1]\<rparr>))) ! 5 = 0"
  using ins_add_frame
    [of "(init ())\<lparr>memory := (replicate MEM_SIZE 0)[0 := 200, 1 := 100], prog := [0, 1]\<rparr>" 0 1 "[]"]
  by (simp add: MEM_SIZE_def)

subsection \<open>SAY\<close>

text \<open>
  C4. SAY with its operand address in \<open>[0, 255]\<close>, on a memory of \<open>MEM_SIZE\<close> cells,
  leaves the memory list exactly as it was, whether it returns or \<^verbatim>\<open>str\<close> raises; it
  returns exactly when \<^verbatim>\<open>str\<close> of the addressed cell does.
\<close>

theorem ins_say_frame:
  assumes "length (memory s) = MEM_SIZE" and "prog s = addr # rest"
    and "0 \<le> addr" and "addr \<le> 255"
  shows "memory (snd (ins_say f s)) = memory s \<and>
         fst (ins_say f s)
           = (case py_str (memory s ! nat addr) of Inl e \<Rightarrow> Inl e | Inr text \<Rightarrow> Inr ())"
  using ins_say_in_range [OF assms(2,3,4,1), of f] by (simp split: sum.split)

theorem ins_say_frame_witness:
  "fst (ins_say (\<lambda>r t. ((), r)) ((init ())\<lparr>memory := (replicate MEM_SIZE 0)[7 := 42], prog := [7]\<rparr>)) = Inr ()
   \<and> memory (snd (ins_say (\<lambda>r t. ((), r)) ((init ())\<lparr>memory := (replicate MEM_SIZE 0)[7 := 42], prog := [7]\<rparr>)))
     = (replicate MEM_SIZE 0)[7 := 42]"
  using ins_say_frame
    [of "(init ())\<lparr>memory := (replicate MEM_SIZE 0)[7 := 42], prog := [7]\<rparr>" 7 "[]" "\<lambda>r t. ((), r)"]
  by (simp add: MEM_SIZE_def py_str_42)

subsection \<open>Runs of well-formed programs\<close>

text \<open>
  C5. Take a program of complete instructions with operands in range and a memory of
  \<open>MEM_SIZE\<close> cells. With any number of RET bytes inserted at any instruction
  boundaries (\<open>insert_rets ns\<close>, for any counts \<open>ns\<close>), the run ends as the run of the
  original program does (both return, or both raise the same exception), with the same
  final memory and the same texts said in the same order.
\<close>

theorem run_ret_insertion:
  assumes "list_all complete_instruction chunks" and "length (memory s) = MEM_SIZE"
  shows "fst (run f (s\<lparr>prog := concat (insert_rets ns chunks)\<rparr>))
           = fst (run f (s\<lparr>prog := concat chunks\<rparr>)) \<and>
         memory (snd (run f (s\<lparr>prog := concat (insert_rets ns chunks)\<rparr>)))
           = memory (snd (run f (s\<lparr>prog := concat chunks\<rparr>))) \<and>
         said (snd (run f (s\<lparr>prog := concat (insert_rets ns chunks)\<rparr>)))
           = said (snd (run f (s\<lparr>prog := concat chunks\<rparr>)))"
  by (rule run_insert_rets [OF assms])

theorem run_ret_insertion_witness:
  "concat (insert_rets [1, 2, 1] [[0x10, 0, 0x17], [0x12, 0]])
     = [0x13, 0x10, 0, 0x17, 0x13, 0x13, 0x12, 0, 0x13]
   \<and> said (snd (run (\<lambda>r t. ((), r)) ((init ())\<lparr>prog := [0x13, 0x10, 0, 0x17, 0x13, 0x13, 0x12, 0, 0x13]\<rparr>)))
     = said (snd (run (\<lambda>r t. ((), r)) ((init ())\<lparr>prog := [0x10, 0, 0x17, 0x12, 0]\<rparr>)))
   \<and> memory (snd (run (\<lambda>r t. ((), r)) ((init ())\<lparr>prog := [0x13, 0x10, 0, 0x17, 0x13, 0x13, 0x12, 0, 0x13]\<rparr>)))
     = memory (snd (run (\<lambda>r t. ((), r)) ((init ())\<lparr>prog := [0x10, 0, 0x17, 0x12, 0]\<rparr>)))"
  using run_ret_insertion [of "[[0x10, 0, 0x17], [0x12, 0]]" "init ()" "\<lambda>r t. ((), r)" "[1, 2, 1]"]
  by (simp add: in_range_def init_def MEM_SIZE_def numeral_2_eq_2)

text \<open>
  C6. Take a program of LOAD instructions, addresses and values in \<open>[0, 255]\<close>, followed
  by a RET, and a memory of \<open>MEM_SIZE\<close> cells. The run returns normally, and afterwards
  every cell \<open>i\<close> holds the value of the last LOAD to \<open>i\<close> in program order
  (\<open>map_of\<close> on the reversed list finds the last pair for \<open>i\<close>), or what it held
  before the run when no LOAD targets \<open>i\<close>.
\<close>

theorem run_loads_last_write_wins:
  assumes "list_all (\<lambda>(a, v). in_range a \<and> in_range v) loads"
    and "length (memory s) = MEM_SIZE" and "prog s = load_program loads"
    and "0 \<le> i" and "i \<le> 255"
  shows "fst (run f s) = Inr () \<and>
         memory (snd (run f s)) ! nat i
           = (case map_of (rev loads) i of None \<Rightarrow> memory s ! nat i | Some v \<Rightarrow> v)"
proof -
  let ?m = "foldl (\<lambda>m (a, v). m[nat a := v]) (memory s) loads"
  let ?t = "s\<lparr>prog := [], memory := ?m\<rparr>"
  have ret: "run_body f (s\<lparr>prog := [0x13], memory := ?m\<rparr>) = (Inr (), ?t)"
    by (simp add: run_body_def popleft_def INSTRUCTIONS_def ins_ret_def)
  from assms(3) have "s = s\<lparr>prog := concat (map (\<lambda>(addr, val). [0x10, addr, val]) loads) @ [0x13]\<rparr>"
    by (simp add: load_program_def)
  then have "run f s = run f (s\<lparr>prog := [0x13], memory := ?m\<rparr>)"
    using run_loads [OF assms(1,2), of f "[0x13]"] by simp
  also have "\<dots> = run f ?t"
    using ret by (intro run_next) simp_all
  also have "\<dots> = (Inr (), ?t)" by (simp add: run_empty)
  finally have "run f s = (Inr (), ?t)" .
  moreover from assms(2,5) have "nat i < length (memory s)" by (simp add: MEM_SIZE_def)
  ultimately show ?thesis using foldl_store_nth [OF assms(4) _ assms(1)] by simp
qed

theorem run_loads_last_write_wins_witness:
  "memory (snd (run (\<lambda>r t. ((), r)) ((init ())\<lparr>prog := load_program [(3, 7), (4, 8), (3, 9)]\<rparr>))) ! 3 = 9
   \<and> memory (snd (run (\<lambda>r t. ((), r)) ((init ())\<lparr>prog := load_program [(3, 7), (4, 8), (3, 9)]\<rparr>))) ! 5 = 0"
  using run_loads_last_write_wins [of "[(3, 7), (4, 8), (3, 9)]"
      "(init ())\<lparr>prog := load_program [(3, 7), (4, 8), (3, 9)]\<rparr>" 3 "\<lambda>r t. ((), r)"]
    run_loads_last_write_wins [of "[(3, 7), (4, 8), (3, 9)]"
      "(init ())\<lparr>prog := load_program [(3, 7), (4, 8), (3, 9)]\<rparr>" 5 "\<lambda>r t. ((), r)"]
  by (simp add: in_range_def init_def MEM_SIZE_def)




subsection \<open>Malformed programs\<close>

text \<open>
  C7. With only the bytes \<open>0x10, 0x05\<close> queued, \<open>run\<close> raises: LOAD pops its address and
  then finds the deque empty, so \<^verbatim>\<open>popleft\<close> raises \<^verbatim>\<open>IndexError\<close> (pop from an empty
  deque), which is the fault the specification calls StarvedOperand. The store of LOAD is
  never reached: the memory is the one before the run.
\<close>

theorem run_starved_operand:
  assumes "prog s = []"
  shows "fst (run f (byte 0x05 (byte 0x10 s))) = Inl (IndexError ''pop from an empty deque'') \<and>
         memory (snd (run f (byte 0x05 (byte 0x10 s)))) = memory s"
  using assms
  by (simp add: run.simps byte_def run_body_def popleft_def INSTRUCTIONS_def ins_load_def)

theorem run_starved_operand_witness:
  "fst (run (\<lambda>r t. ((), r)) (byte 0x05 (byte 0x10 (init ())))) = Inl (IndexError ''pop from an empty deque'') \<and>
   memory (snd (run (\<lambda>r t. ((), r)) (byte 0x05 (byte 0x10 (init ()))))) = replicate MEM_SIZE 0"
  using run_starved_operand [of "init ()" "\<lambda>r t. ((), r)"]
  by (simp add: init_def)

text \<open>
  C8. With only the byte \<open>0xFF\<close> queued, \<open>run\<close> raises: the dispatch table has no key
  255, so the lookup raises \<^verbatim>\<open>KeyError\<close> with that key, which is the fault the
  specification calls UnknownOpcode. No handler ran: the memory is the one before the run.
\<close>

theorem run_unknown_opcode:
  assumes "prog s = []"
  shows "fst (run f (byte 0xFF s)) = Inl (KeyError 0xFF) \<and>
         memory (snd (run f (byte 0xFF s))) = memory s"
  using assms
  by (simp add: run.simps byte_def run_body_def popleft_def INSTRUCTIONS_def)

theorem run_unknown_opcode_witness:
  "fst (run (\<lambda>r t. ((), r)) (byte 0xFF (init ()))) = Inl (KeyError 0xFF) \<and>
   memory (snd (run (\<lambda>r t. ((), r)) (byte 0xFF (init ())))) = replicate MEM_SIZE 0"
  using run_unknown_opcode [of "init ()" "\<lambda>r t. ((), r)"]
  by (simp add: init_def)

subsection \<open>Determinism\<close>

text \<open>
  C10. Two runs that start from the same memory, the same queue and the same record of
  texts said, but with any two robots and any two behaviours of \<^verbatim>\<open>say_text\<close> (so with
  any replies), end alike: both return or both raise the same exception, and the final
  memory, the texts said and the remaining queue are the same.
\<close>

theorem run_deterministic:
  "fst (run f \<lparr>robot = r1, memory = m, prog = p, said = t\<rparr>)
     = fst (run g \<lparr>robot = r2, memory = m, prog = p, said = t\<rparr>) \<and>
   memory (snd (run f \<lparr>robot = r1, memory = m, prog = p, said = t\<rparr>))
     = memory (snd (run g \<lparr>robot = r2, memory = m, prog = p, said = t\<rparr>)) \<and>
   said (snd (run f \<lparr>robot = r1, memory = m, prog = p, said = t\<rparr>))
     = said (snd (run g \<lparr>robot = r2, memory = m, prog = p, said = t\<rparr>)) \<and>
   prog (snd (run f \<lparr>robot = r1, memory = m, prog = p, said = t\<rparr>))
     = prog (snd (run g \<lparr>robot = r2, memory = m, prog = p, said = t\<rparr>))"
  using run_agree [of "\<lparr>robot = r1, memory = m, prog = p, said = t\<rparr>"
      "\<lparr>robot = r2, memory = m, prog = p, said = t\<rparr>" f g]
  by simp

end
